theory Spec2Isabelle
  imports Main "HOL-Library.AList" "HOL-Library.Sublist"
begin

section \<open>Data model\<close>

text \<open>
  The legacy command pipeline of \<^verbatim>\<open>src/github/handlers/issue-comment/created.ts\<close>:
  a comment body is matched against the configured plugins, a
  \<^verbatim>\<open>repository_dispatch\<close> event is sent, the workflow run it started is looked up by
  name, polled until it is completed, and the outputs of its steps are collected.

  Strings are \<^typ>\<open>string\<close>: a character is a code point below 256 (U+0000 to
  U+00FF), and on these \<^verbatim>\<open>toLowerCase\<close>, \<^verbatim>\<open>\s\<close> and \<^verbatim>\<open>\b\<close> are given exactly.  A JavaScript exception is
  the left summand of a result, a call that never returns is \<^term>\<open>None\<close>.
  The \<^verbatim>\<open>console.log\<close> lines of the source write diagnostics only and are left out.
\<close>

datatype js_error = TypeError | SyntaxError

text \<open>\<^verbatim>\<open>interface WorkflowRun { id: number; name: string; status: string }\<close>\<close>

record WorkflowRun =
  run_id :: int
  run_name :: string
  run_status :: string

text \<open>
  The \<^verbatim>\<open>Plugin\<close> type is declared in \<^verbatim>\<open>ubiquibot-config\<close>; these are the fields
  \<^verbatim>\<open>userCommands\<close> gives it that the handlers read.
\<close>

record Plugin =
  name :: string
  command :: string
  description :: string
  example :: string

text \<open>The parts of the \<^verbatim>\<open>issue_comment.created\<close> payload that the handlers read.\<close>

record User =
  login :: string
  user_type :: string

record Repository =
  owner :: User
  repository_name :: string

record Comment =
  body :: string
  user :: User

record Issue =
  number :: int

record Payload =
  repository :: Repository
  comment :: Comment
  issue :: Issue
  sender :: User

record GitHubContext =
  payload :: Payload

text \<open>
  The values of JSON, as \<^verbatim>\<open>response.json()\<close> gives them.  An object is an association
  list with distinct keys; every key that the text of the response has, \<^verbatim>\<open>__proto__\<close>
  included, is an own property of the parsed object.  A number is kept as its literal.
\<close>

datatype json =
    JNull
  | JBool bool
  | JNumber string
  | JString string
  | JArray "json list"
  | JObject "(string \<times> json) list"

text \<open>A job of a run (only its id is read) and a step of a job; \<^verbatim>\<open>outputs\<close> may be
  missing.\<close>

record Job =
  job_id :: int

record Step =
  conclusion :: string
  outputs :: "(string \<times> json) list option"

text \<open>The \<^verbatim>\<open>client_payload\<close> sent with a dispatch.\<close>

record ClientPayload =
  cp_body :: string
  cp_issueNumber :: int
  cp_sender :: string
  cp_repo :: string
  cp_org :: string

section \<open>The remote system and the effects of a handler\<close>

text \<open>
  Every call to the remote API and every suspension is recorded, in order, in the trace
  of the world the handler runs in.  The owner and repository of an effect are the
  strings that the source splices into the URL.
\<close>

datatype effect =
    CreateDispatch string string string ClientPayload
  | ListRuns string string
  | GetRun string string int
  | ListJobs string string int
  | GetJob string string int
  | Sleep nat
  | CreateComment string string int string

record world =
  trace :: "effect list"
  status_reads :: nat

text \<open>
  What the remote system answers.  The status of a run changes with time: the answer to
  a status read depends on how many status reads came before it.
\<close>

record remote =
  workflow_runs :: "string \<Rightarrow> string \<Rightarrow> WorkflowRun list"
  status_at :: "string \<Rightarrow> string \<Rightarrow> int \<Rightarrow> nat \<Rightarrow> string"
  run_jobs :: "string \<Rightarrow> string \<Rightarrow> int \<Rightarrow> Job list"
  job_steps :: "string \<Rightarrow> string \<Rightarrow> int \<Rightarrow> Step list"

definition emit :: "effect \<Rightarrow> world \<Rightarrow> world" where
  "emit e w = w\<lparr>trace := trace w @ [e]\<rparr>"

section \<open>Locating the run of a dispatch\<close>

text \<open>
  \<^verbatim>\<open>fetchInvokedPluginRunner\<close> lists the runs of the repository (the URL of the source is
  \<^verbatim>\<open>.../actions/runs/}\<close>, closing brace included; the model takes whatever list the remote
  answers) and returns
  \<^verbatim>\<open>data.workflow_runs.filter((run) => run.name === eventType).slice(0, 5)\<close>.
\<close>

definition fetchInvokedPluginRunner ::
  "remote \<Rightarrow> string \<Rightarrow> string \<Rightarrow> string \<Rightarrow> world \<Rightarrow> WorkflowRun list \<times> world" where
  "fetchInvokedPluginRunner R ownr repo eventType w =
     (take 5 (filter (\<lambda>run. run_name run = eventType) (workflow_runs R ownr repo)),
      emit (ListRuns ownr repo) w)"

text \<open>\<^verbatim>\<open>runs.filter((run) => run.status === "in_progress")\<close>\<close>

definition fetchInProgressRunsBatch5 ::
  "remote \<Rightarrow> string \<Rightarrow> string \<Rightarrow> string \<Rightarrow> world \<Rightarrow> WorkflowRun list \<times> world" where
  "fetchInProgressRunsBatch5 R ownr repo eventType w =
     (case fetchInvokedPluginRunner R ownr repo eventType w of
        (runs, w') \<Rightarrow> (filter (\<lambda>run. run_status run = ''in_progress'') runs, w'))"

section \<open>Extracting the outputs of a run\<close>

text \<open>
  The accumulator of the reduction is the object \<^verbatim>\<open>{}\<close>: it has own properties, none at
  first, and a prototype, at first \<^verbatim>\<open>Object.prototype\<close>.  The own properties are listed
  in the order in which they were first assigned (JavaScript lists the keys that are
  array indices before the others; the properties below are about the mapping from
  keys to values, which does not depend on the order).
\<close>

datatype prototype = ObjectPrototype | NullPrototype | ValuePrototype json

record js_object =
  own :: "(string \<times> json) list"
  prototype_of :: prototype

definition empty_object :: js_object where
  "empty_object = \<lparr>own = [], prototype_of = ObjectPrototype\<rparr>"

text \<open>
  The assignment \<^verbatim>\<open>acc[key] = value\<close>.  Every property that the accumulator can
  inherit is a writable data property, but for one: \<^verbatim>\<open>__proto__\<close> of \<^verbatim>\<open>Object.prototype\<close>
  is an accessor.  So the assignment stores an own property (an existing key keeps its
  place and takes the new value, a new key comes last), unless the key is
  \<^verbatim>\<open>__proto__\<close> and the lookup of that key reaches the accessor: the accumulator has no
  such own property, its prototype is not \<^verbatim>\<open>null\<close>, and a parsed object that has become
  its prototype has no such own property.  The setter of the accessor makes an object,
  an array or \<^verbatim>\<open>null\<close> the prototype of the accumulator and does nothing for any other
  value; it stores no own property.
\<close>

definition proto_setter_reached :: "js_object \<Rightarrow> bool" where
  "proto_setter_reached acc =
     (map_of (own acc) ''__proto__'' = None \<and>
      (case prototype_of acc of
         ObjectPrototype \<Rightarrow> True
       | NullPrototype \<Rightarrow> False
       | ValuePrototype (JObject props) \<Rightarrow> map_of props ''__proto__'' = None
       | ValuePrototype _ \<Rightarrow> True))"

definition proto_setter :: "js_object \<Rightarrow> json \<Rightarrow> js_object" where
  "proto_setter acc v =
     (case v of
        JObject _ \<Rightarrow> acc\<lparr>prototype_of := ValuePrototype v\<rparr>
      | JArray _ \<Rightarrow> acc\<lparr>prototype_of := ValuePrototype v\<rparr>
      | JNull \<Rightarrow> acc\<lparr>prototype_of := NullPrototype\<rparr>
      | _ \<Rightarrow> acc)"

definition assign :: "js_object \<Rightarrow> string \<Rightarrow> json \<Rightarrow> js_object" where
  "assign acc key v =
     (if key = ''__proto__'' \<and> proto_setter_reached acc then proto_setter acc v
      else acc\<lparr>own := AList.update key v (own acc)\<rparr>)"

text \<open>\<^verbatim>\<open>Object.keys(step.outputs)\<close>, and \<^verbatim>\<open>acc[key] = step.outputs[key]\<close> for one of these
  keys, so that the lookup finds a value.\<close>

definition Object_keys :: "(string \<times> json) list \<Rightarrow> string list" where
  "Object_keys obj = map fst obj"

definition assign_output :: "(string \<times> json) list \<Rightarrow> js_object \<Rightarrow> string \<Rightarrow> js_object" where
  "assign_output outs acc key =
     (case map_of outs key of
        Some v \<Rightarrow> assign acc key v
      | None \<Rightarrow> acc)"

text \<open>The callback of \<^verbatim>\<open>jobDetails.steps.reduce\<close>.\<close>

definition reduce_step :: "js_object \<Rightarrow> Step \<Rightarrow> js_object" where
  "reduce_step acc step =
     (if conclusion step = ''success'' then
        (case outputs step of
           None \<Rightarrow> acc
         | Some outs \<Rightarrow> fold (\<lambda>key a. assign_output outs a key) (Object_keys outs) acc)
      else acc)"

text \<open>
  \<^verbatim>\<open>fetchRunLogs\<close>: list the jobs of the run, read \<^verbatim>\<open>jobsData.jobs[0].id\<close>, fetch that job
  and reduce its steps.  On an empty job list \<^verbatim>\<open>jobsData.jobs[0]\<close> is \<^verbatim>\<open>undefined\<close> and
  reading its \<^verbatim>\<open>id\<close> throws a \<^verbatim>\<open>TypeError\<close>.
\<close>

definition fetchRunLogs ::
  "remote \<Rightarrow> int \<Rightarrow> string \<Rightarrow> string \<Rightarrow> world \<Rightarrow> (js_error + js_object) \<times> world" where
  "fetchRunLogs R runID ownr repo w =
     (let w1 = emit (ListJobs ownr repo runID) w in
      case run_jobs R ownr repo runID of
        [] \<Rightarrow> (Inl TypeError, w1)
      | job # _ \<Rightarrow>
          (let jobId = job_id job;
               w2 = emit (GetJob ownr repo jobId) w1
           in (Inr (foldl reduce_step empty_object (job_steps R ownr repo jobId)), w2)))"

text \<open>
  What the specification says of the extraction: a step contributes its output pairs when
  its conclusion is \<^verbatim>\<open>success\<close> and its outputs are present, and the contributions are
  added in the order of the steps, a later value replacing an earlier one.
\<close>

definition contribution :: "Step \<Rightarrow> (string \<rightharpoonup> json)" where
  "contribution step =
     (if conclusion step = ''success'' then
        (case outputs step of None \<Rightarrow> Map.empty | Some outs \<Rightarrow> map_of outs)
      else Map.empty)"

definition last_write_wins :: "Step list \<Rightarrow> (string \<rightharpoonup> json)" where
  "last_write_wins steps = foldl (\<lambda>m step. m ++ contribution step) Map.empty steps"

text \<open>The values that the setter of \<^verbatim>\<open>__proto__\<close> ignores.\<close>

definition is_primitive :: "json \<Rightarrow> bool" where
  "is_primitive v = (case v of JBool _ \<Rightarrow> True | JNumber _ \<Rightarrow> True | JString _ \<Rightarrow> True | _ \<Rightarrow> False)"

definition proto_values_primitive :: "Step list \<Rightarrow> bool" where
  "proto_values_primitive steps =
     list_all (\<lambda>step. case contribution step ''__proto__'' of
                         None \<Rightarrow> True
                       | Some v \<Rightarrow> is_primitive v) steps"

text \<open>As long as \<^verbatim>\<open>__proto__\<close> is given no object, no array and no \<^verbatim>\<open>null\<close>, the accumulator
  keeps its first prototype and gets no own property of that name.\<close>

definition untouched :: "js_object \<Rightarrow> bool" where
  "untouched acc =
     (prototype_of acc = ObjectPrototype \<and> map_of (own acc) ''__proto__'' = None)"

section \<open>Polling a run until it is completed\<close>

text \<open>
  The loop of \<^verbatim>\<open>pollInProgressRunTillCompletion\<close>: read the status of the run; leave the
  loop when it is \<^verbatim>\<open>completed\<close>, otherwise wait for 15000 milliseconds and read again.
  The loop has no bound, so it is a partial function: \<^term>\<open>None\<close> is the loop that
  never ends.
\<close>

partial_function (option) poll_loop ::
  "remote \<Rightarrow> int \<Rightarrow> string \<Rightarrow> string \<Rightarrow> world \<Rightarrow> world option" where
  "poll_loop R runID ownr repo w =
     (let status = status_at R ownr repo runID (status_reads w);
          w1 = (emit (GetRun ownr repo runID) w)\<lparr>status_reads := status_reads w + 1\<rparr>
      in if status = ''completed'' then Some w1
         else poll_loop R runID ownr repo (emit (Sleep 15000) w1))"

declare poll_loop.simps [code]

definition pollInProgressRunTillCompletion ::
  "remote \<Rightarrow> int \<Rightarrow> string \<Rightarrow> string \<Rightarrow> world
     \<Rightarrow> ((js_error + js_object) \<times> world) option" where
  "pollInProgressRunTillCompletion R runID ownr repo w =
     (case poll_loop R runID ownr repo w of
        None \<Rightarrow> None
      | Some w' \<Rightarrow> Some (fetchRunLogs R runID ownr repo w'))"

section \<open>Dispatching a plugin\<close>

text \<open>
  \<^verbatim>\<open>String.prototype.toLowerCase\<close>: the upper-case letters below U+0100 are A to Z
  and U+00C0 to U+00DE without the multiplication sign U+00D7, and the lower-case
  letter of each is 32 code points above it.
\<close>

definition is_upper :: "char \<Rightarrow> bool" where
  "is_upper c =
     (let n = (of_char c :: nat)
      in (65 \<le> n \<and> n \<le> 90) \<or> (192 \<le> n \<and> n \<le> 222 \<and> n \<noteq> 215))"

definition toLowerCase_char :: "char \<Rightarrow> char" where
  "toLowerCase_char c = (if is_upper c then char_of ((of_char c :: nat) + 32) else c)"

definition toLowerCase :: "string \<Rightarrow> string" where
  "toLowerCase s = map toLowerCase_char s"

text \<open>
  The class \<^verbatim>\<open>\s\<close>: below U+0100 its members are tab, line feed, vertical tab, form
  feed, carriage return, space and the no-break space U+00A0.
\<close>

definition is_whitespace :: "char \<Rightarrow> bool" where
  "is_whitespace c =
     (let n = (of_char c :: nat) in (9 \<le> n \<and> n \<le> 13) \<or> n = 32 \<or> n = 160)"

text \<open>\<^verbatim>\<open>.replace(/\s/g, "-")\<close>\<close>

definition replace_whitespace :: "string \<Rightarrow> string" where
  "replace_whitespace s = map (\<lambda>c. if is_whitespace c then CHR ''-'' else c) s"

text \<open>\<^verbatim>\<open>const eventType = plugin.name.toLowerCase().replace(/\s/g, "-")\<close>\<close>

definition dispatchEventType :: "Plugin \<Rightarrow> string" where
  "dispatchEventType plugin = replace_whitespace (toLowerCase (name plugin))"


text \<open>
  \<^verbatim>\<open>pluginDispatch\<close>.  In the URL of the dispatch the source splices \<^verbatim>\<open>owner\<close>, which is
  the owner object of the repository and not its login: a template literal renders an
  object as \<^verbatim>\<open>[object Object]\<close>.  The lookup and the poll are given \<^verbatim>\<open>owner.login\<close>.
  The function returns the string \<^verbatim>\<open>No runs found\<close>, or nothing (\<^term>\<open>None\<close>) after the
  output of the run has been logged.
\<close>

definition object_in_template :: string where
  "object_in_template = ''[object Object]''"

definition pluginDispatch ::
  "remote \<Rightarrow> Plugin \<Rightarrow> GitHubContext \<Rightarrow> world \<Rightarrow> ((js_error + string option) \<times> world) option" where
  "pluginDispatch R plugin event w =
     (let ownr = owner (repository (payload event));
          repo = repository_name (repository (payload event));
          clientPayload = \<lparr>cp_body = body (comment (payload event)),
                           cp_issueNumber = number (issue (payload event)),
                           cp_sender = login (sender (payload event)),
                           cp_repo = repo,
                           cp_org = login (owner (repository (payload event)))\<rparr>;
          eventType = dispatchEventType plugin;
          w1 = emit (CreateDispatch object_in_template repo eventType clientPayload) w
      in case fetchInProgressRunsBatch5 R (login ownr) repo eventType w1 of
           (runs, w2) \<Rightarrow>
             if length runs = 0 then Some (Inr (Some ''No runs found''), w2)
             else (case pollInProgressRunTillCompletion R (run_id (hd runs)) (login ownr) repo w2 of
                     None \<Rightarrow> None
                   | Some (Inl err, w3) \<Rightarrow> Some (Inl err, w3)
                   | Some (Inr output, w3) \<Rightarrow> Some (Inr None, w3)))"

section \<open>Resolving the command of a comment\<close>

text \<open>\<^verbatim>\<open>Array.prototype.join\<close>\<close>

fun join :: "string \<Rightarrow> string list \<Rightarrow> string" where
  "join sep [] = []"
| "join sep [x] = x"
| "join sep (x # y # ys) = x @ sep @ join sep (y # ys)"

text \<open>
  \<^verbatim>\<open>commentParser\<close>.  The regular expression engine of JavaScript is a parameter: called
  with the source of a pattern and a subject, it throws (a \<^verbatim>\<open>SyntaxError\<close> of the
  constructor), finds no match (\<^verbatim>\<open>null\<close>) or returns the matched text \<^verbatim>\<open>matches[0]\<close>.
\<close>

type_synonym regexp_engine = "string \<Rightarrow> string \<Rightarrow> js_error + string option"

definition command_pattern :: "string list \<Rightarrow> string" where
  "command_pattern pluginCommands = ''^('' @ join ''|'' pluginCommands @ '')'' @ [CHR 0x5C, CHR ''b'']"

definition commentParser :: "regexp_engine \<Rightarrow> string \<Rightarrow> Plugin list \<Rightarrow> js_error + string option" where
  "commentParser exec text plugins =
     (let pluginCommands = map command plugins in
      case exec (command_pattern pluginCommands) text of
        Inl err \<Rightarrow> Inl err
      | Inr None \<Rightarrow> Inr None
      | Inr (Some matched) \<Rightarrow>
          if matched \<in> set pluginCommands then Inr (Some matched) else Inr None)"

text \<open>
  \<^verbatim>\<open>issueCommentCreated\<close>, from the plugins of the configuration on (the configuration is
  loaded by \<^verbatim>\<open>getUbiquiBotConfig\<close>, which is not part of these sources).  The test
  \<^verbatim>\<open>!command\<close> holds of \<^verbatim>\<open>null\<close> and of the empty string.
\<close>

definition issueCommentCreated ::
  "regexp_engine \<Rightarrow> remote \<Rightarrow> Plugin list option \<Rightarrow> GitHubContext \<Rightarrow> world
     \<Rightarrow> ((js_error + string option) \<times> world) option" where
  "issueCommentCreated exec R configured event w =
     (case configured of
        None \<Rightarrow> Some (Inr None, w)
      | Some plugins \<Rightarrow>
          (case commentParser exec (body (comment (payload event))) plugins of
             Inl err \<Rightarrow> Some (Inl err, w)
           | Inr None \<Rightarrow> Some (Inr None, w)
           | Inr (Some cmd) \<Rightarrow>
               if cmd = [] then Some (Inr None, w)
               else (case find (\<lambda>p. command p = cmd) plugins of
                       None \<Rightarrow> Some (Inr None, w)
                     | Some commandHandler \<Rightarrow>
                         (case pluginDispatch R commandHandler event w of
                            None \<Rightarrow> None
                          | Some (Inl err, w') \<Rightarrow> Some (Inl err, w')
                          | Some (Inr _, w') \<Rightarrow> Some (Inr None, w')))))"

section \<open>The regular expressions of the resolver\<close>

text \<open>
  The pattern of \<^verbatim>\<open>commentParser\<close> is \<^verbatim>\<open>^(c1|...|cn)\b\<close>.  When no \<^verbatim>\<open>ci\<close> holds a syntax
  character of the pattern language, the alternatives are literal texts and the meaning
  of the pattern is written out here: anchored at the start of the subject, the
  alternatives are tried from left to right, and an alternative matches when it is a
  prefix of the subject and a word boundary follows it (\<^verbatim>\<open>\b\<close>: exactly one of the
  characters before and after the position is a word character; beyond the ends of the
  subject there is none).  Every other pattern is left to an engine that is a parameter.
\<close>

definition is_word_char :: "char \<Rightarrow> bool" where
  "is_word_char c =
     (let n = (of_char c :: nat)
      in (48 \<le> n \<and> n \<le> 57) \<or> (65 \<le> n \<and> n \<le> 90) \<or> n = 95 \<or> (97 \<le> n \<and> n \<le> 122))"

definition word_boundary :: "string \<Rightarrow> nat \<Rightarrow> bool" where
  "word_boundary s p =
     ((0 < p \<and> p \<le> length s \<and> is_word_char (s ! (p - 1)))
        \<noteq> (p < length s \<and> is_word_char (s ! p)))"

definition syntax_character :: "char \<Rightarrow> bool" where
  "syntax_character c = (c \<in> set ''^$.*+?()[]{}|'' \<or> c = CHR 0x5C)"

definition literal :: "string \<Rightarrow> bool" where
  "literal s = list_all (\<lambda>c. \<not> syntax_character c) s"

fun split_on :: "char \<Rightarrow> string \<Rightarrow> string list" where
  "split_on sep [] = [[]]"
| "split_on sep (c # cs) =
     (if c = sep then [] # split_on sep cs
      else (case split_on sep cs of
              [] \<Rightarrow> [[c]]
            | piece # pieces \<Rightarrow> (c # piece) # pieces))"

definition literal_alternatives :: "string \<Rightarrow> string list option" where
  "literal_alternatives pattern =
     (case pattern of
        c1 # c2 # rest \<Rightarrow>
          if c1 = CHR ''^'' \<and> c2 = CHR ''('' \<and> 3 \<le> length rest
             \<and> drop (length rest - 3) rest = [CHR '')'', CHR 0x5C, CHR ''b'']
          then (let inner = take (length rest - 3) rest
                in if list_all (\<lambda>c. c = CHR ''|'' \<or> \<not> syntax_character c) inner
                   then Some (split_on CHR ''|'' inner) else None)
          else None
      | _ \<Rightarrow> None)"

definition first_alternative :: "string list \<Rightarrow> string \<Rightarrow> string option" where
  "first_alternative alts subject =
     find (\<lambda>a. prefix a subject \<and> word_boundary subject (length a)) alts"

definition RegExp_exec :: "regexp_engine \<Rightarrow> regexp_engine" where
  "RegExp_exec other pattern subject =
     (case literal_alternatives pattern of
        Some alts \<Rightarrow> Inr (first_alternative alts subject)
      | None \<Rightarrow> other pattern subject)"

text \<open>What the specification says of the resolver: the first command, in the order of
  the configuration, whose match string is a prefix of the text.\<close>

definition first_prefix_command :: "string \<Rightarrow> Plugin list \<Rightarrow> Plugin option" where
  "first_prefix_command text plugins = find (\<lambda>p. prefix (command p) text) plugins"

text \<open>The same with the word boundary of the pattern.\<close>

definition first_bounded_command :: "string \<Rightarrow> Plugin list \<Rightarrow> Plugin option" where
  "first_bounded_command text plugins =
     find (\<lambda>p. prefix (command p) text \<and> word_boundary text (length (command p))) plugins"

section \<open>The comment handler of the worker\<close>

text \<open>\<^verbatim>\<open>handleIssueCommentCreated\<close> of \<^verbatim>\<open>src/handlers/issue/comment_created.ts\<close>.\<close>

definition handleIssueCommentCreated :: "GitHubContext \<Rightarrow> world \<Rightarrow> world" where
  "handleIssueCommentCreated event w =
     (if user_type (user (comment (payload event))) = ''Bot'' then w
      else emit (CreateComment (login (owner (repository (payload event))))
                               (repository_name (repository (payload event)))
                               (number (issue (payload event)))
                               ''Hello from the worker!'') w)"

section \<open>Concrete inputs\<close>

text \<open>\<^verbatim>\<open>userCommands\<close> of the source: the one command \<^verbatim>\<open>/help\<close>.\<close>

definition help_plugin :: Plugin where
  "help_plugin = \<lparr>name = ''Help Menu'', command = ''/help'',
                   description = ''List all available commands.'', example = ''/help''\<rparr>"

definition userCommands :: "Plugin list" where
  "userCommands = [help_plugin]"

definition world0 :: world where
  "world0 = \<lparr>trace = [], status_reads = 0\<rparr>"

definition example_event :: GitHubContext where
  "example_event =
     \<lparr>payload =
        \<lparr>repository = \<lparr>owner = \<lparr>login = ''ubiquity'', user_type = ''Organization''\<rparr>,
                        repository_name = ''research''\<rparr>,
         comment = \<lparr>body = ''/help'', user = \<lparr>login = ''alice'', user_type = ''User''\<rparr>\<rparr>,
         issue = \<lparr>number = 25\<rparr>,
         sender = \<lparr>login = ''alice'', user_type = ''User''\<rparr>\<rparr>\<rparr>"

definition bot_event :: GitHubContext where
  "bot_event =
     \<lparr>payload =
        \<lparr>repository = \<lparr>owner = \<lparr>login = ''ubiquity'', user_type = ''Organization''\<rparr>,
                        repository_name = ''research''\<rparr>,
         comment = \<lparr>body = ''done'', user = \<lparr>login = ''ubiquibot'', user_type = ''Bot''\<rparr>\<rparr>,
         issue = \<lparr>number = 25\<rparr>,
         sender = \<lparr>login = ''ubiquibot'', user_type = ''Bot''\<rparr>\<rparr>\<rparr>"

text \<open>The step list of the specification's example, and a second job that must not be read.\<close>

definition example_steps :: "Step list" where
  "example_steps =
     [\<lparr>conclusion = ''success'', outputs = Some [(''a'', JString ''1'')]\<rparr>,
      \<lparr>conclusion = ''failure'', outputs = Some [(''a'', JString ''2'')]\<rparr>,
      \<lparr>conclusion = ''success'', outputs = Some [(''a'', JString ''3''), (''b'', JString ''4'')]\<rparr>]"

text \<open>A successful step with an output named \<^verbatim>\<open>__proto__\<close>, and a remote whose first job
  has this one step.\<close>

definition proto_steps :: "Step list" where
  "proto_steps =
     [\<lparr>conclusion = ''success'',
       outputs = Some [(''__proto__'', JString ''x''), (''a'', JString ''1'')]\<rparr>]"

definition scripted_status :: "nat \<Rightarrow> string" where
  "scripted_status k =
     (if k = 0 then ''queued'' else if k < 3 then ''in_progress'' else ''completed'')"

definition example_runs :: "WorkflowRun list" where
  "example_runs =
     [\<lparr>run_id = 107, run_name = ''help-menu'', run_status = ''in_progress''\<rparr>,
      \<lparr>run_id = 106, run_name = ''research-command'', run_status = ''in_progress''\<rparr>,
      \<lparr>run_id = 105, run_name = ''help-menu'', run_status = ''completed''\<rparr>,
      \<lparr>run_id = 104, run_name = ''help-menu'', run_status = ''in_progress''\<rparr>,
      \<lparr>run_id = 103, run_name = ''help-menu'', run_status = ''queued''\<rparr>,
      \<lparr>run_id = 102, run_name = ''help-menu'', run_status = ''completed''\<rparr>,
      \<lparr>run_id = 101, run_name = ''help-menu'', run_status = ''in_progress''\<rparr>]"

definition example_remote :: "remote" where
  "example_remote =
     \<lparr>workflow_runs = (\<lambda>ownr repo. example_runs),
      status_at = (\<lambda>ownr repo runID k. scripted_status k),
      run_jobs = (\<lambda>ownr repo runID. [\<lparr>job_id = 11\<rparr>, \<lparr>job_id = 12\<rparr>]),
      job_steps = (\<lambda>ownr repo jobId.
         if jobId = 11 then example_steps
         else [\<lparr>conclusion = ''success'', outputs = Some [(''a'', JString ''other job'')]\<rparr>])\<rparr>"

definition proto_remote :: remote where
  "proto_remote = example_remote\<lparr>job_steps := (\<lambda>ownr repo jobId. proto_steps)\<rparr>"

definition remote_without_runs :: "remote" where
  "remote_without_runs = example_remote\<lparr>workflow_runs := (\<lambda>ownr repo. [])\<rparr>"

definition remote_without_jobs :: "remote" where
  "remote_without_jobs = example_remote\<lparr>run_jobs := (\<lambda>ownr repo runID. [])\<rparr>"

text \<open>An engine for the patterns outside the literal fragment that matches nothing; the
  patterns of the concrete inputs below are all inside the fragment and never reach it.\<close>

definition no_other_engine :: regexp_engine where
  "no_other_engine pattern subject = Inr None"


section \<open>Properties\<close>

lemma subseq_take_left: "subseq (take n xs) xs"
  by (metis append_take_drop_id subseq_rev_drop_many subseq_order.order_refl)

lemma filter_keeps_and_adds:
  "\<forall>x \<in> set xs. P x \<Longrightarrow> \<forall>x \<in> set (filter Q xs). P x \<and> Q x"
  by simp

lemma take_of_filter_all: "\<forall>x \<in> set (take n (filter P xs)). P x"
  using set_take_subset [of n "filter P xs"] by auto

text \<open>
  Claim C3.  Whatever list of runs the remote listing returns, the locator returns at
  most five runs, each named as the requested event type and each in progress, and they
  stand in the order in which the listing has them (the result is a subsequence of the
  listing).
\<close>

theorem locator_bounded_named_in_progress_ordered:
  "length (fst (fetchInProgressRunsBatch5 R ownr repo eventType w)) \<le> 5
   \<and> (\<forall>run \<in> set (fst (fetchInProgressRunsBatch5 R ownr repo eventType w)).
         run_name run = eventType \<and> run_status run = ''in_progress'')
   \<and> subseq (fst (fetchInProgressRunsBatch5 R ownr repo eventType w)) (workflow_runs R ownr repo)"
proof -
  let ?named = "filter (\<lambda>run. run_name run = eventType) (workflow_runs R ownr repo)"
  let ?res = "filter (\<lambda>run. run_status run = ''in_progress'') (take 5 ?named)"
  have res: "fst (fetchInProgressRunsBatch5 R ownr repo eventType w) = ?res"
    by (simp add: fetchInProgressRunsBatch5_def fetchInvokedPluginRunner_def)
  have len: "length ?res \<le> 5"
    by (rule order_trans [OF length_filter_le]) simp
  have "\<forall>run \<in> set (take 5 ?named). run_name run = eventType"
    by (rule take_of_filter_all)
  then have all: "\<forall>run \<in> set ?res. run_name run = eventType \<and> run_status run = ''in_progress''"
    by (rule filter_keeps_and_adds)
  have "subseq (take 5 ?named) ?named"
    by (rule subseq_take_left)
  then have "subseq (take 5 ?named) (workflow_runs R ownr repo)"
    by (rule subseq_order.order_trans) simp
  then have sub: "subseq ?res (workflow_runs R ownr repo)"
    by (rule subseq_order.order_trans [OF subseq_filter_left])
  show ?thesis
    unfolding res by (intro conjI) (rule len, rule all, rule sub)
qed

theorem locator_bounded_named_in_progress_ordered_witness:
  "length (fst (fetchInProgressRunsBatch5 example_remote ''ubiquity'' ''research'' ''help-menu'' world0)) \<le> 5
   \<and> map run_id (fst (fetchInProgressRunsBatch5 example_remote ''ubiquity'' ''research'' ''help-menu'' world0))
         = [107, 104]
   \<and> subseq (fst (fetchInProgressRunsBatch5 example_remote ''ubiquity'' ''research'' ''help-menu'' world0))
        (workflow_runs example_remote ''ubiquity'' ''research'')"
  using locator_bounded_named_in_progress_ordered
          [of example_remote "''ubiquity''" "''research''" "''help-menu''" world0]
  by (simp add: fetchInProgressRunsBatch5_def fetchInvokedPluginRunner_def example_remote_def
      example_runs_def)

subsection \<open>The extraction\<close>

lemma own_assign:
  "k \<noteq> ''__proto__'' \<Longrightarrow>
   map_of (own (assign acc key v)) k = (if key = k then Some v else map_of (own acc) k)"
  by (auto simp: assign_def proto_setter_def update_conv' split: json.splits)

lemma own_assign_output:
  "k \<noteq> ''__proto__'' \<Longrightarrow>
   map_of (own (assign_output outs acc key)) k
     = (if key = k \<and> map_of outs k \<noteq> None then map_of outs k else map_of (own acc) k)"
  by (auto simp: assign_output_def own_assign split: option.splits)

lemma own_fold_assign:
  "k \<noteq> ''__proto__'' \<Longrightarrow>
   map_of (own (fold (\<lambda>key a. assign_output outs a key) ks acc)) k
     = (if k \<in> set ks \<and> map_of outs k \<noteq> None then map_of outs k else map_of (own acc) k)"
proof (induction ks arbitrary: acc)
  case Nil
  show ?case by simp
next
  case (Cons key ks)
  have "map_of (own (fold (\<lambda>key a. assign_output outs a key) (key # ks) acc)) k
          = (if k \<in> set ks \<and> map_of outs k \<noteq> None then map_of outs k
             else map_of (own (assign_output outs acc key)) k)"
    using Cons.prems by (simp add: Cons.IH)
  also have "\<dots> = (if k \<in> set (key # ks) \<and> map_of outs k \<noteq> None then map_of outs k
                    else map_of (own acc) k)"
    using Cons.prems by (auto simp: own_assign_output)
  finally show ?case .
qed

lemma own_reduce_step:
  assumes "k \<noteq> ''__proto__''"
  shows "map_of (own (reduce_step acc step)) k = (map_of (own acc) ++ contribution step) k"
proof (cases "conclusion step = ''success''")
  case False
  then show ?thesis by (simp add: reduce_step_def contribution_def)
next
  case True
  show ?thesis
  proof (cases "outputs step")
    case None
    with True show ?thesis by (simp add: reduce_step_def contribution_def)
  next
    case (Some outs)
    have keys: "k \<in> set (Object_keys outs) \<or> map_of outs k = None"
      by (auto simp: Object_keys_def map_of_eq_None_iff)
    from True Some have "map_of (own (reduce_step acc step)) k
        = (if k \<in> set (Object_keys outs) \<and> map_of outs k \<noteq> None then map_of outs k
           else map_of (own acc) k)"
      using assms by (simp add: reduce_step_def own_fold_assign)
    also have "\<dots> = (map_of (own acc) ++ map_of outs) k"
      using keys by (auto simp: map_add_def split: option.splits)
    finally show ?thesis
      using True Some by (simp add: contribution_def)
  qed
qed

lemma own_foldl_reduce_step:
  assumes "k \<noteq> ''__proto__''"
  shows "map_of (own (foldl reduce_step acc steps)) k
           = foldl (\<lambda>m step. m ++ contribution step) (map_of (own acc)) steps k"
proof (induction steps rule: rev_induct)
  case Nil
  show ?case by simp
next
  case (snoc step steps)
  have "map_of (own (foldl reduce_step acc (steps @ [step]))) k
          = (map_of (own (foldl reduce_step acc steps)) ++ contribution step) k"
    using assms by (simp add: own_reduce_step)
  also have "\<dots> = (foldl (\<lambda>m step. m ++ contribution step) (map_of (own acc)) steps
                     ++ contribution step) k"
    by (simp add: map_add_def snoc.IH split: option.splits)
  finally show ?case by simp
qed

lemma foldl_override_latest:
  "foldl (\<lambda>m step. m ++ contribution step) m steps k =
     (case find (\<lambda>step. contribution step k \<noteq> None) (rev steps) of
        None \<Rightarrow> m k
      | Some step \<Rightarrow> contribution step k)"
  by (induction steps rule: rev_induct) (auto simp: map_add_def split: option.splits)

lemma untouched_assign:
  "untouched acc \<Longrightarrow> (key = ''__proto__'' \<Longrightarrow> is_primitive v) \<Longrightarrow> untouched (assign acc key v)"
  by (auto simp: untouched_def assign_def proto_setter_reached_def proto_setter_def is_primitive_def
      update_conv' split: json.splits)

lemma untouched_fold_assign:
  assumes "case map_of outs ''__proto__'' of None \<Rightarrow> True | Some v \<Rightarrow> is_primitive v"
  shows "untouched acc \<Longrightarrow> untouched (fold (\<lambda>key a. assign_output outs a key) ks acc)"
proof (induction ks arbitrary: acc)
  case Nil
  then show ?case by simp
next
  case (Cons key ks)
  have "untouched (assign_output outs acc key)"
  proof (cases "map_of outs key")
    case None
    with Cons.prems show ?thesis by (simp add: assign_output_def)
  next
    case (Some v)
    have "key = ''__proto__'' \<Longrightarrow> is_primitive v"
      using assms Some by simp
    with Cons.prems have "untouched (assign acc key v)" by (rule untouched_assign)
    with Some show ?thesis by (simp add: assign_output_def)
  qed
  then show ?case by (simp add: Cons.IH)
qed

lemma untouched_reduce_step:
  assumes "case contribution step ''__proto__'' of None \<Rightarrow> True | Some v \<Rightarrow> is_primitive v"
      and "untouched acc"
  shows "untouched (reduce_step acc step)"
proof (cases "conclusion step = ''success''")
  case False
  with assms(2) show ?thesis by (simp add: reduce_step_def)
next
  case True
  show ?thesis
  proof (cases "outputs step")
    case None
    with assms(2) show ?thesis by (simp add: reduce_step_def)
  next
    case (Some outs)
    from assms(1) True Some
    have "case map_of outs ''__proto__'' of None \<Rightarrow> True | Some v \<Rightarrow> is_primitive v"
      by (simp add: contribution_def)
    then have "untouched (fold (\<lambda>key a. assign_output outs a key) (Object_keys outs) acc)"
      using assms(2) by (rule untouched_fold_assign)
    with True Some show ?thesis by (simp add: reduce_step_def)
  qed
qed

lemma untouched_foldl_reduce_step:
  "proto_values_primitive steps \<Longrightarrow> untouched acc \<Longrightarrow> untouched (foldl reduce_step acc steps)"
proof (induction steps arbitrary: acc)
  case Nil
  then show ?case by simp
next
  case (Cons step steps)
  from Cons.prems have "untouched (reduce_step acc step)"
    by (simp add: proto_values_primitive_def untouched_reduce_step)
  moreover from Cons.prems have "proto_values_primitive steps"
    by (simp add: proto_values_primitive_def)
  ultimately show ?case by (simp add: Cons.IH)
qed

lemma reduce_example_steps:
  "foldl reduce_step empty_object example_steps
     = \<lparr>own = [(''a'', JString ''3''), (''b'', JString ''4'')], prototype_of = ObjectPrototype\<rparr>"
  by (simp add: example_steps_def reduce_step_def Object_keys_def assign_output_def assign_def
      empty_object_def)

lemma reduce_proto_steps:
  "foldl reduce_step empty_object proto_steps
     = \<lparr>own = [(''a'', JString ''1'')], prototype_of = ObjectPrototype\<rparr>"
  by (simp add: proto_steps_def reduce_step_def Object_keys_def assign_output_def assign_def
      proto_setter_reached_def proto_setter_def empty_object_def)

text \<open>
  Claim C1.  When the job list of the run is not empty, the extraction lists the jobs,
  fetches the job at index 0 and no other, and returns an object.  For every key but
  \<^verbatim>\<open>__proto__\<close> the own properties of that object are the fold of the steps of the job
  in their order, each step with conclusion \<^verbatim>\<open>success\<close> and outputs present adding its
  pairs and a later value replacing an earlier one: the value of the key is the one
  given by the last such step that has the key.  For the three steps of the example
  the object is \<^verbatim>\<open>{a: "3", b: "4"}\<close>.  The key \<^verbatim>\<open>__proto__\<close> is not added as the claim
  says: a pair with this key and a string, a number or a boolean is never stored.
\<close>

theorem extraction_first_job_last_write_wins_but_proto:
  assumes jobs: "run_jobs R ownr repo runID = j # js"
  shows "\<exists>obj. fetchRunLogs R runID ownr repo w
                 = (Inr obj, emit (GetJob ownr repo (job_id j)) (emit (ListJobs ownr repo runID) w))
           \<and> (\<forall>key. key \<noteq> ''__proto__'' \<longrightarrow>
                 map_of (own obj) key = last_write_wins (job_steps R ownr repo (job_id j)) key)
           \<and> (\<forall>key. key \<noteq> ''__proto__'' \<longrightarrow>
                 map_of (own obj) key =
                   (case find (\<lambda>step. contribution step key \<noteq> None)
                           (rev (job_steps R ownr repo (job_id j))) of
                      None \<Rightarrow> None
                    | Some step \<Rightarrow> contribution step key))
           \<and> (proto_values_primitive (job_steps R ownr repo (job_id j)) \<longrightarrow>
                 map_of (own obj) ''__proto__'' = None \<and> prototype_of obj = ObjectPrototype)
           \<and> (job_steps R ownr repo (job_id j) = example_steps \<longrightarrow>
                 obj = \<lparr>own = [(''a'', JString ''3''), (''b'', JString ''4'')],
                        prototype_of = ObjectPrototype\<rparr>)"
proof -
  let ?steps = "job_steps R ownr repo (job_id j)"
  let ?obj = "foldl reduce_step empty_object ?steps"
  have run: "fetchRunLogs R runID ownr repo w
               = (Inr ?obj, emit (GetJob ownr repo (job_id j)) (emit (ListJobs ownr repo runID) w))"
    by (simp add: fetchRunLogs_def jobs Let_def)
  have fold: "\<forall>key. key \<noteq> ''__proto__'' \<longrightarrow> map_of (own ?obj) key = last_write_wins ?steps key"
    by (simp add: own_foldl_reduce_step last_write_wins_def empty_object_def)
  have latest: "\<forall>key. key \<noteq> ''__proto__'' \<longrightarrow>
                  map_of (own ?obj) key =
                  (case find (\<lambda>step. contribution step key \<noteq> None) (rev ?steps) of
                     None \<Rightarrow> None
                   | Some step \<Rightarrow> contribution step key)"
    by (simp add: own_foldl_reduce_step foldl_override_latest empty_object_def)
  have "untouched empty_object"
    by (simp add: untouched_def empty_object_def)
  then have "proto_values_primitive ?steps \<longrightarrow> untouched ?obj"
    by (simp add: untouched_foldl_reduce_step)
  then have proto: "proto_values_primitive ?steps \<longrightarrow>
                      map_of (own ?obj) ''__proto__'' = None \<and> prototype_of ?obj = ObjectPrototype"
    by (simp add: untouched_def)
  have example: "?steps = example_steps \<longrightarrow>
                   ?obj = \<lparr>own = [(''a'', JString ''3''), (''b'', JString ''4'')],
                           prototype_of = ObjectPrototype\<rparr>"
    by (simp add: reduce_example_steps)
  from run fold latest proto example show ?thesis
    by (intro exI [where x = ?obj] conjI)
qed

text \<open>
  The theorem at a step with the outputs \<^verbatim>\<open>{"__proto__": "x", "a": "1"}\<close>: the two pairs
  are what the claim says is added, and the object returned has the one property
  \<^verbatim>\<open>a\<close>.
\<close>

theorem extraction_first_job_last_write_wins_but_proto_witness:
  "run_jobs proto_remote ''ubiquity'' ''research'' 107 = \<lparr>job_id = 11\<rparr> # [\<lparr>job_id = 12\<rparr>]
   \<and> last_write_wins (job_steps proto_remote ''ubiquity'' ''research'' 11) ''__proto__''
        = Some (JString ''x'')
   \<and> last_write_wins (job_steps proto_remote ''ubiquity'' ''research'' 11) ''a''
        = Some (JString ''1'')
   \<and> fetchRunLogs proto_remote 107 ''ubiquity'' ''research'' world0
        = (Inr \<lparr>own = [(''a'', JString ''1'')], prototype_of = ObjectPrototype\<rparr>,
           \<lparr>trace = [ListJobs ''ubiquity'' ''research'' 107, GetJob ''ubiquity'' ''research'' 11],
            status_reads = 0\<rparr>)"
proof -
  have jobs: "run_jobs proto_remote ''ubiquity'' ''research'' 107 = \<lparr>job_id = 11\<rparr> # [\<lparr>job_id = 12\<rparr>]"
    by (simp add: proto_remote_def example_remote_def)
  have steps: "job_steps proto_remote ''ubiquity'' ''research'' 11 = proto_steps"
    by (simp add: proto_remote_def)
  have sp: "last_write_wins proto_steps ''__proto__'' = Some (JString ''x'')"
    by (simp add: last_write_wins_def proto_steps_def contribution_def)
  have sa: "last_write_wins proto_steps ''a'' = Some (JString ''1'')"
    by (simp add: last_write_wins_def proto_steps_def contribution_def)
  from extraction_first_job_last_write_wins_but_proto [OF jobs, of world0]
  obtain obj where
    obj: "fetchRunLogs proto_remote 107 ''ubiquity'' ''research'' world0
            = (Inr obj, emit (GetJob ''ubiquity'' ''research'' (job_id \<lparr>job_id = 11\<rparr>))
                          (emit (ListJobs ''ubiquity'' ''research'' 107) world0))"
    by (elim exE conjE) (rule that)
  have "fst (fetchRunLogs proto_remote 107 ''ubiquity'' ''research'' world0)
          = Inr (foldl reduce_step empty_object proto_steps)"
    by (simp add: fetchRunLogs_def jobs steps Let_def)
  with obj have "obj = \<lparr>own = [(''a'', JString ''1'')], prototype_of = ObjectPrototype\<rparr>"
    by (simp add: reduce_proto_steps)
  with obj have run: "fetchRunLogs proto_remote 107 ''ubiquity'' ''research'' world0
        = (Inr \<lparr>own = [(''a'', JString ''1'')], prototype_of = ObjectPrototype\<rparr>,
           \<lparr>trace = [ListJobs ''ubiquity'' ''research'' 107, GetJob ''ubiquity'' ''research'' 11],
            status_reads = 0\<rparr>)"
    by (simp add: emit_def world0_def)
  from jobs sp sa run show ?thesis
    unfolding steps by (intro conjI)
qed

subsection \<open>The poller\<close>

lemma poll_loop_completed:
  "status_at R ownr repo runID (status_reads w) = ''completed'' \<Longrightarrow>
   poll_loop R runID ownr repo w
     = Some ((emit (GetRun ownr repo runID) w)\<lparr>status_reads := status_reads w + 1\<rparr>)"
  by (subst poll_loop.simps) (simp add: Let_def)

lemma poll_loop_waits:
  "status_at R ownr repo runID (status_reads w) \<noteq> ''completed'' \<Longrightarrow>
   poll_loop R runID ownr repo w
     = poll_loop R runID ownr repo
         (emit (Sleep 15000) ((emit (GetRun ownr repo runID) w)\<lparr>status_reads := status_reads w + 1\<rparr>))"
  by (subst poll_loop.simps) (simp add: Let_def)

lemma status_reads_emit [simp]: "status_reads (emit e w) = status_reads w"
  by (simp add: emit_def)

lemma trace_emit [simp]: "trace (emit e w) = trace w @ [e]"
  by (simp add: emit_def)

lemma poll_loop_reaches_completed:
  "status_at R ownr repo runID (status_reads w + n) = ''completed'' \<Longrightarrow>
   \<exists>m w'. poll_loop R runID ownr repo w = Some w'
        \<and> trace w' = trace w @ concat (replicate m [GetRun ownr repo runID, Sleep 15000])
                         @ [GetRun ownr repo runID]
        \<and> status_reads w' = status_reads w + m + 1
        \<and> status_at R ownr repo runID (status_reads w + m) = ''completed''
        \<and> (\<forall>i<m. status_at R ownr repo runID (status_reads w + i) \<noteq> ''completed'')"
proof (induction n arbitrary: w)
  case 0
  let ?w1 = "(emit (GetRun ownr repo runID) w)\<lparr>status_reads := status_reads w + 1\<rparr>"
  from 0 have now: "status_at R ownr repo runID (status_reads w) = ''completed''" by simp
  then have "poll_loop R runID ownr repo w = Some ?w1"
    by (rule poll_loop_completed)
  with now have "poll_loop R runID ownr repo w = Some ?w1
        \<and> trace ?w1 = trace w @ concat (replicate 0 [GetRun ownr repo runID, Sleep 15000])
                         @ [GetRun ownr repo runID]
        \<and> status_reads ?w1 = status_reads w + 0 + 1
        \<and> status_at R ownr repo runID (status_reads w + 0) = ''completed''
        \<and> (\<forall>i<0. status_at R ownr repo runID (status_reads w + i) \<noteq> ''completed'')"
    by simp
  then show ?case
    by (intro exI [where x = 0] exI [where x = ?w1])
next
  case (Suc n)
  let ?w1 = "(emit (GetRun ownr repo runID) w)\<lparr>status_reads := status_reads w + 1\<rparr>"
  show ?case
  proof (cases "status_at R ownr repo runID (status_reads w) = ''completed''")
    case True
    then have "poll_loop R runID ownr repo w = Some ?w1"
      by (rule poll_loop_completed)
    with True have "poll_loop R runID ownr repo w = Some ?w1
        \<and> trace ?w1 = trace w @ concat (replicate 0 [GetRun ownr repo runID, Sleep 15000])
                         @ [GetRun ownr repo runID]
        \<and> status_reads ?w1 = status_reads w + 0 + 1
        \<and> status_at R ownr repo runID (status_reads w + 0) = ''completed''
        \<and> (\<forall>i<0. status_at R ownr repo runID (status_reads w + i) \<noteq> ''completed'')"
      by simp
    then show ?thesis
      by (intro exI [where x = 0] exI [where x = ?w1])
  next
    case False
    let ?w2 = "emit (Sleep 15000) ?w1"
    have reads: "status_reads ?w2 = status_reads w + 1" by simp
    have tr: "trace ?w2 = trace w @ [GetRun ownr repo runID, Sleep 15000]" by simp
    have step: "poll_loop R runID ownr repo w = poll_loop R runID ownr repo ?w2"
      using False by (rule poll_loop_waits)
    from Suc.prems have "status_at R ownr repo runID (status_reads ?w2 + n) = ''completed''"
      by (simp add: reads)
    from Suc.IH [OF this] obtain m w' where
      w': "poll_loop R runID ownr repo ?w2 = Some w'"
          "trace w' = trace ?w2 @ concat (replicate m [GetRun ownr repo runID, Sleep 15000])
                         @ [GetRun ownr repo runID]"
          "status_reads w' = status_reads ?w2 + m + 1"
          "status_at R ownr repo runID (status_reads ?w2 + m) = ''completed''"
          "\<forall>i<m. status_at R ownr repo runID (status_reads ?w2 + i) \<noteq> ''completed''"
      by (elim exE conjE) (rule that)
    have a: "poll_loop R runID ownr repo w = Some w'"
      using step w'(1) by simp
    have b: "trace w' = trace w @ concat (replicate (Suc m) [GetRun ownr repo runID, Sleep 15000])
                         @ [GetRun ownr repo runID]"
      using w'(2) by (simp only: tr replicate_Suc concat.simps append_assoc)
    have c: "status_reads w' = status_reads w + Suc m + 1"
      using w'(3) by (simp add: reads)
    have d: "status_at R ownr repo runID (status_reads w + Suc m) = ''completed''"
      using w'(4) by (simp add: reads)
    have e: "\<forall>i<Suc m. status_at R ownr repo runID (status_reads w + i) \<noteq> ''completed''"
    proof (intro allI impI)
      fix i assume i: "i < Suc m"
      show "status_at R ownr repo runID (status_reads w + i) \<noteq> ''completed''"
      proof (cases i)
        case 0
        with False show ?thesis by simp
      next
        case (Suc k)
        with i have "k < m" by simp
        with w'(5) have "status_at R ownr repo runID (status_reads ?w2 + k) \<noteq> ''completed''"
          by (elim allE [where x = k]) simp
        with Suc show ?thesis by (simp add: reads)
      qed
    qed
    from a b c d e show ?thesis
      by (intro exI [where x = "Suc m"] exI [where x = w'] conjI)
  qed
qed

lemma poll_loop_scripted:
  assumes s0: "status_at R ownr repo runID (status_reads w) \<noteq> ''completed''"
      and s1: "status_at R ownr repo runID (status_reads w + 1) \<noteq> ''completed''"
      and s2: "status_at R ownr repo runID (status_reads w + 2) \<noteq> ''completed''"
      and s3: "status_at R ownr repo runID (status_reads w + 3) = ''completed''"
  shows "poll_loop R runID ownr repo w
           = Some (w\<lparr>trace := trace w @ [GetRun ownr repo runID, Sleep 15000,
                                         GetRun ownr repo runID, Sleep 15000,
                                         GetRun ownr repo runID, Sleep 15000,
                                         GetRun ownr repo runID],
                     status_reads := status_reads w + 4\<rparr>)"
proof -
  let ?read = "\<lambda>w. (emit (GetRun ownr repo runID) w)\<lparr>status_reads := status_reads w + 1\<rparr>"
  let ?w1 = "emit (Sleep 15000) (?read w)"
  let ?w2 = "emit (Sleep 15000) (?read ?w1)"
  let ?w3 = "emit (Sleep 15000) (?read ?w2)"
  let ?w4 = "?read ?w3"
  have r1: "status_reads ?w1 = status_reads w + 1" by simp
  have r2: "status_reads ?w2 = status_reads w + 2" by simp
  have r3: "status_reads ?w3 = status_reads w + 3" by simp
  have "poll_loop R runID ownr repo w = poll_loop R runID ownr repo ?w1"
    by (rule poll_loop_waits) (rule s0)
  also have "\<dots> = poll_loop R runID ownr repo ?w2"
    by (rule poll_loop_waits) (simp only: r1 s1, simp)
  also have "\<dots> = poll_loop R runID ownr repo ?w3"
    by (rule poll_loop_waits) (simp only: r2 s2, simp)
  also have "\<dots> = Some ?w4"
    by (rule poll_loop_completed) (simp only: r3 s3)
  finally have "poll_loop R runID ownr repo w = Some ?w4" .
  then show ?thesis by (simp add: emit_def)
qed

lemma scripted_status_poll:
  assumes "status_at R = (\<lambda>ownr repo runID k. scripted_status k)" and "status_reads w = 0"
  shows "poll_loop R runID ownr repo w
           = Some (w\<lparr>trace := trace w @ [GetRun ownr repo runID, Sleep 15000,
                                         GetRun ownr repo runID, Sleep 15000,
                                         GetRun ownr repo runID, Sleep 15000,
                                         GetRun ownr repo runID],
                     status_reads := 4\<rparr>)"
  using poll_loop_scripted [of R ownr repo runID w] assms
  by (simp add: scripted_status_def)

text \<open>
  Claim C2.  When the successive status reads of the run answer \<^verbatim>\<open>queued\<close>,
  \<^verbatim>\<open>in_progress\<close>, \<^verbatim>\<open>in_progress\<close> and \<^verbatim>\<open>completed\<close>, the loop of the poller ends
  after exactly four status reads, the last of them the one that observes
  \<^verbatim>\<open>completed\<close>; between two consecutive reads there is one suspension of 15000
  milliseconds and nothing else; the poller then goes on to the extraction.
\<close>

theorem poller_four_reads_for_script:
  assumes s0: "status_at R ownr repo runID (status_reads w) = ''queued''"
      and s1: "status_at R ownr repo runID (status_reads w + 1) = ''in_progress''"
      and s2: "status_at R ownr repo runID (status_reads w + 2) = ''in_progress''"
      and s3: "status_at R ownr repo runID (status_reads w + 3) = ''completed''"
  shows "\<exists>w'. poll_loop R runID ownr repo w = Some w'
           \<and> pollInProgressRunTillCompletion R runID ownr repo w
                = Some (fetchRunLogs R runID ownr repo w')
           \<and> trace w' = trace w @ [GetRun ownr repo runID, Sleep 15000,
                                   GetRun ownr repo runID, Sleep 15000,
                                   GetRun ownr repo runID, Sleep 15000,
                                   GetRun ownr repo runID]
           \<and> status_reads w' = status_reads w + 4"
proof -
  have "poll_loop R runID ownr repo w
           = Some (w\<lparr>trace := trace w @ [GetRun ownr repo runID, Sleep 15000,
                                         GetRun ownr repo runID, Sleep 15000,
                                         GetRun ownr repo runID, Sleep 15000,
                                         GetRun ownr repo runID],
                     status_reads := status_reads w + 4\<rparr>)"
    by (rule poll_loop_scripted) (simp_all only: s0 s1 s2 s3, simp_all)
  then show ?thesis by (simp add: pollInProgressRunTillCompletion_def)
qed

theorem poller_four_reads_for_script_witness:
  "status_at example_remote ''ubiquity'' ''research'' 107 (status_reads world0) = ''queued''
   \<and> status_at example_remote ''ubiquity'' ''research'' 107 (status_reads world0 + 1) = ''in_progress''
   \<and> status_at example_remote ''ubiquity'' ''research'' 107 (status_reads world0 + 2) = ''in_progress''
   \<and> status_at example_remote ''ubiquity'' ''research'' 107 (status_reads world0 + 3) = ''completed''
   \<and> poll_loop example_remote 107 ''ubiquity'' ''research'' world0
        = Some \<lparr>trace = [GetRun ''ubiquity'' ''research'' 107, Sleep 15000,
                          GetRun ''ubiquity'' ''research'' 107, Sleep 15000,
                          GetRun ''ubiquity'' ''research'' 107, Sleep 15000,
                          GetRun ''ubiquity'' ''research'' 107],
                status_reads = 4\<rparr>"
proof -
  have s0: "status_at example_remote ''ubiquity'' ''research'' 107 (status_reads world0) = ''queued''"
    by (simp add: example_remote_def scripted_status_def world0_def)
  have s1: "status_at example_remote ''ubiquity'' ''research'' 107 (status_reads world0 + 1) = ''in_progress''"
    by (simp add: example_remote_def scripted_status_def world0_def)
  have s2: "status_at example_remote ''ubiquity'' ''research'' 107 (status_reads world0 + 2) = ''in_progress''"
    by (simp add: example_remote_def scripted_status_def world0_def)
  have s3: "status_at example_remote ''ubiquity'' ''research'' 107 (status_reads world0 + 3) = ''completed''"
    by (simp add: example_remote_def scripted_status_def world0_def)
  from poller_four_reads_for_script [OF s0 s1 s2 s3] obtain w' where
    w': "poll_loop example_remote 107 ''ubiquity'' ''research'' world0 = Some w'"
        "trace w' = trace world0 @ [GetRun ''ubiquity'' ''research'' 107, Sleep 15000,
                          GetRun ''ubiquity'' ''research'' 107, Sleep 15000,
                          GetRun ''ubiquity'' ''research'' 107, Sleep 15000,
                          GetRun ''ubiquity'' ''research'' 107]"
        "status_reads w' = status_reads world0 + 4"
    by (elim exE conjE) (rule that)
  from w'(2,3) have "w' = \<lparr>trace = [GetRun ''ubiquity'' ''research'' 107, Sleep 15000,
                          GetRun ''ubiquity'' ''research'' 107, Sleep 15000,
                          GetRun ''ubiquity'' ''research'' 107, Sleep 15000,
                          GetRun ''ubiquity'' ''research'' 107],
                status_reads = 4\<rparr>"
    by (cases w') (simp add: world0_def)
  with w'(1) s0 s1 s2 s3 show ?thesis by simp
qed

text \<open>
  Claim C6.  If some status read of the run, now or later, answers \<^verbatim>\<open>completed\<close>,
  the loop of the poller ends and the poller returns (with the result of the
  extraction).  What the loop has done by then is a number of status reads, each but
  the last followed by one suspension: every read before the last was answered with a
  status other than \<^verbatim>\<open>completed\<close>, and the last read, the last effect of the loop, was
  answered \<^verbatim>\<open>completed\<close>.
\<close>

theorem poller_terminates_on_completed:
  assumes "\<exists>k. status_reads w \<le> k \<and> status_at R ownr repo runID k = ''completed''"
  shows "\<exists>m w'. poll_loop R runID ownr repo w = Some w'
           \<and> pollInProgressRunTillCompletion R runID ownr repo w
                = Some (fetchRunLogs R runID ownr repo w')
           \<and> trace w' = trace w @ concat (replicate m [GetRun ownr repo runID, Sleep 15000])
                            @ [GetRun ownr repo runID]
           \<and> status_reads w' = status_reads w + m + 1
           \<and> status_at R ownr repo runID (status_reads w + m) = ''completed''
           \<and> (\<forall>i<m. status_at R ownr repo runID (status_reads w + i) \<noteq> ''completed'')"
proof -
  from assms obtain k where k: "status_reads w \<le> k" "status_at R ownr repo runID k = ''completed''"
    by (elim exE conjE)
  then have "status_at R ownr repo runID (status_reads w + (k - status_reads w)) = ''completed''"
    by simp
  from poll_loop_reaches_completed [OF this] obtain m w' where
    w': "poll_loop R runID ownr repo w = Some w'"
        "trace w' = trace w @ concat (replicate m [GetRun ownr repo runID, Sleep 15000])
                            @ [GetRun ownr repo runID]"
        "status_reads w' = status_reads w + m + 1"
        "status_at R ownr repo runID (status_reads w + m) = ''completed''"
        "\<forall>i<m. status_at R ownr repo runID (status_reads w + i) \<noteq> ''completed''"
    by (elim exE conjE) (rule that)
  from w'(1) have "pollInProgressRunTillCompletion R runID ownr repo w
                     = Some (fetchRunLogs R runID ownr repo w')"
    by (simp add: pollInProgressRunTillCompletion_def)
  with w' show ?thesis
    by (intro exI [where x = m] exI [where x = w'] conjI)
qed

theorem poller_terminates_on_completed_witness:
  "(\<exists>k. status_reads world0 \<le> k \<and> status_at example_remote ''ubiquity'' ''research'' 107 k = ''completed'')
   \<and> poll_loop example_remote 107 ''ubiquity'' ''research'' world0
        = Some \<lparr>trace = [GetRun ''ubiquity'' ''research'' 107, Sleep 15000,
                          GetRun ''ubiquity'' ''research'' 107, Sleep 15000,
                          GetRun ''ubiquity'' ''research'' 107, Sleep 15000,
                          GetRun ''ubiquity'' ''research'' 107],
                status_reads = 4\<rparr>
   \<and> status_at example_remote ''ubiquity'' ''research'' 107 3 = ''completed''"
proof -
  have st: "status_at example_remote ''ubiquity'' ''research'' 107 k = scripted_status k" for k
    by (simp add: example_remote_def)
  have pre: "\<exists>k. status_reads world0 \<le> k
                    \<and> status_at example_remote ''ubiquity'' ''research'' 107 k = ''completed''"
    by (rule exI [where x = 5]) (simp add: st scripted_status_def world0_def)
  from poller_terminates_on_completed [OF pre] obtain m w' where
    w': "poll_loop example_remote 107 ''ubiquity'' ''research'' world0 = Some w'"
        "trace w' = trace world0 @ concat (replicate m [GetRun ''ubiquity'' ''research'' 107, Sleep 15000])
                            @ [GetRun ''ubiquity'' ''research'' 107]"
        "status_reads w' = status_reads world0 + m + 1"
        "status_at example_remote ''ubiquity'' ''research'' 107 (status_reads world0 + m) = ''completed''"
        "\<forall>i<m. status_at example_remote ''ubiquity'' ''research'' 107 (status_reads world0 + i) \<noteq> ''completed''"
    by (elim exE conjE) (rule that)
  from w'(4) have "scripted_status m = ''completed''"
    by (simp add: st world0_def)
  then have lower: "3 \<le> m"
    by (simp add: scripted_status_def split: if_splits)
  have upper: "m \<le> 3"
  proof (rule ccontr)
    assume "\<not> m \<le> 3"
    then have "3 < m" by simp
    with w'(5) have "status_at example_remote ''ubiquity'' ''research'' 107 (status_reads world0 + 3) \<noteq> ''completed''"
      by (elim allE [where x = 3]) simp
    then show False by (simp add: st scripted_status_def world0_def)
  qed
  from lower upper have m: "m = 3" by simp
  have "replicate m [GetRun ''ubiquity'' ''research'' 107, Sleep 15000]
          = [[GetRun ''ubiquity'' ''research'' 107, Sleep 15000],
             [GetRun ''ubiquity'' ''research'' 107, Sleep 15000],
             [GetRun ''ubiquity'' ''research'' 107, Sleep 15000]]"
    unfolding m by (simp add: numeral_3_eq_3)
  with w'(2,3) have "w' = \<lparr>trace = [GetRun ''ubiquity'' ''research'' 107, Sleep 15000,
                          GetRun ''ubiquity'' ''research'' 107, Sleep 15000,
                          GetRun ''ubiquity'' ''research'' 107, Sleep 15000,
                          GetRun ''ubiquity'' ''research'' 107],
                status_reads = 4\<rparr>"
    by (cases w') (simp add: world0_def m)
  with w'(1) have loop: "poll_loop example_remote 107 ''ubiquity'' ''research'' world0
        = Some \<lparr>trace = [GetRun ''ubiquity'' ''research'' 107, Sleep 15000,
                          GetRun ''ubiquity'' ''research'' 107, Sleep 15000,
                          GetRun ''ubiquity'' ''research'' 107, Sleep 15000,
                          GetRun ''ubiquity'' ''research'' 107],
                status_reads = 4\<rparr>"
    by simp
  have last: "status_at example_remote ''ubiquity'' ''research'' 107 3 = ''completed''"
    by (simp add: st scripted_status_def)
  from pre loop last show ?thesis by (intro conjI)
qed

subsection \<open>The orchestrator\<close>

lemma runs_independent_of_world:
  "fst (fetchInProgressRunsBatch5 R ownr repo eventType w)
     = fst (fetchInProgressRunsBatch5 R ownr repo eventType w1)"
  by (simp add: fetchInProgressRunsBatch5_def fetchInvokedPluginRunner_def)

lemma pluginDispatch_unfold:
  "pluginDispatch R plugin event w =
     (let ownr = login (owner (repository (payload event)));
          repo = repository_name (repository (payload event));
          w1 = emit (CreateDispatch object_in_template repo (dispatchEventType plugin)
                       \<lparr>cp_body = body (comment (payload event)),
                        cp_issueNumber = number (issue (payload event)),
                        cp_sender = login (sender (payload event)),
                        cp_repo = repo,
                        cp_org = ownr\<rparr>) w;
          runs = fst (fetchInProgressRunsBatch5 R ownr repo (dispatchEventType plugin) w1);
          w2 = emit (ListRuns ownr repo) w1
      in if runs = [] then Some (Inr (Some ''No runs found''), w2)
         else (case pollInProgressRunTillCompletion R (run_id (hd runs)) ownr repo w2 of
                 None \<Rightarrow> None
               | Some (Inl err, w3) \<Rightarrow> Some (Inl err, w3)
               | Some (Inr output, w3) \<Rightarrow> Some (Inr None, w3)))"
  by (simp add: pluginDispatch_def Let_def fetchInProgressRunsBatch5_def fetchInvokedPluginRunner_def)

lemma dispatchEventType_help_plugin: "dispatchEventType help_plugin = ''help-menu''"
  by (simp add: dispatchEventType_def help_plugin_def toLowerCase_def toLowerCase_char_def is_upper_def
      replace_whitespace_def is_whitespace_def char_of_def bit_0)

text \<open>
  Claim C4.  When the lookup after a dispatch finds no run in progress, the
  orchestrator returns \<^verbatim>\<open>No runs found\<close>, and all it has done is the dispatch and the
  listing of the runs: no status read, no suspension, no job listing and no job
  fetch, so neither the poller nor the extractor has been called.
\<close>

theorem no_runs_found_without_poll_or_extraction:
  assumes "fst (fetchInProgressRunsBatch5 R (login (owner (repository (payload event))))
                  (repository_name (repository (payload event))) (dispatchEventType plugin) w1) = []"
  shows "pluginDispatch R plugin event w
           = Some (Inr (Some ''No runs found''),
                   w\<lparr>trace := trace w @
                        [CreateDispatch object_in_template
                           (repository_name (repository (payload event)))
                           (dispatchEventType plugin)
                           \<lparr>cp_body = body (comment (payload event)),
                            cp_issueNumber = number (issue (payload event)),
                            cp_sender = login (sender (payload event)),
                            cp_repo = repository_name (repository (payload event)),
                            cp_org = login (owner (repository (payload event)))\<rparr>,
                         ListRuns (login (owner (repository (payload event))))
                           (repository_name (repository (payload event)))]\<rparr>)"
proof -
  let ?ownr = "login (owner (repository (payload event)))"
  let ?repo = "repository_name (repository (payload event))"
  have "\<And>w'. fst (fetchInProgressRunsBatch5 R ?ownr ?repo (dispatchEventType plugin) w') = []"
    using assms runs_independent_of_world [of R ?ownr ?repo "dispatchEventType plugin" _ w1]
    by simp
  then show ?thesis
    by (simp add: pluginDispatch_unfold Let_def emit_def)
qed

theorem no_runs_found_without_poll_or_extraction_witness:
  "fst (fetchInProgressRunsBatch5 remote_without_runs (login (owner (repository (payload example_event))))
          (repository_name (repository (payload example_event))) (dispatchEventType help_plugin) world0) = []
   \<and> pluginDispatch remote_without_runs help_plugin example_event world0
        = Some (Inr (Some ''No runs found''),
                \<lparr>trace = [CreateDispatch ''[object Object]'' ''research'' ''help-menu''
                             \<lparr>cp_body = ''/help'', cp_issueNumber = 25, cp_sender = ''alice'',
                              cp_repo = ''research'', cp_org = ''ubiquity''\<rparr>,
                           ListRuns ''ubiquity'' ''research''],
                 status_reads = 0\<rparr>)"
proof -
  have none: "fst (fetchInProgressRunsBatch5 remote_without_runs
                     (login (owner (repository (payload example_event))))
                     (repository_name (repository (payload example_event)))
                     (dispatchEventType help_plugin) world0) = []"
    by (simp add: fetchInProgressRunsBatch5_def fetchInvokedPluginRunner_def remote_without_runs_def
        example_remote_def)
  from no_runs_found_without_poll_or_extraction [OF none, of world0] none
  show ?thesis
    by (simp add: dispatchEventType_help_plugin example_event_def world0_def object_in_template_def)
qed

text \<open>
  Claim C7 says that a run with no job is reported to the orchestrator as an
  extraction error and not as a failed index access.  The source has no such outcome:
  on the remote that lists no job for any run, reading \<^verbatim>\<open>jobsData.jobs[0].id\<close> throws
  the \<^verbatim>\<open>TypeError\<close>, and the orchestrator ends with that exception.
\<close>

theorem zero_jobs_counterexample:
  "fst (fetchRunLogs remote_without_jobs 107 ''ubiquity'' ''research'' world0) = Inl TypeError
   \<and> map_option fst (pluginDispatch remote_without_jobs help_plugin example_event world0)
        = Some (Inl TypeError)"
proof -
  have jobs: "run_jobs remote_without_jobs = (\<lambda>ownr repo runID. [])"
    by (simp add: remote_without_jobs_def)
  have status: "status_at remote_without_jobs = (\<lambda>ownr repo runID k. scripted_status k)"
    by (simp add: remote_without_jobs_def example_remote_def)
  have runs: "fst (fetchInProgressRunsBatch5 remote_without_jobs ''ubiquity'' ''research'' ''help-menu'' w)
                = [\<lparr>run_id = 107, run_name = ''help-menu'', run_status = ''in_progress''\<rparr>,
                   \<lparr>run_id = 104, run_name = ''help-menu'', run_status = ''in_progress''\<rparr>]" for w
    by (simp add: fetchInProgressRunsBatch5_def fetchInvokedPluginRunner_def remote_without_jobs_def
        example_remote_def example_runs_def)
  have extraction: "fst (fetchRunLogs remote_without_jobs runID ownr repo w) = Inl TypeError"
    for runID ownr repo w
    by (simp add: fetchRunLogs_def jobs)
  have poll: "map_option fst (pollInProgressRunTillCompletion remote_without_jobs 107 ''ubiquity'' ''research'' w)
                = Some (Inl TypeError)" if "status_reads w = 0" for w
    using scripted_status_poll [OF status that, of 107 "''ubiquity''" "''research''"]
    by (simp add: pollInProgressRunTillCompletion_def extraction)
  have "map_option fst (pluginDispatch remote_without_jobs help_plugin example_event world0)
          = Some (Inl TypeError)"
    using poll [of "emit (ListRuns ''ubiquity'' ''research'')
                      (emit (CreateDispatch object_in_template ''research'' ''help-menu''
                         \<lparr>cp_body = ''/help'', cp_issueNumber = 25, cp_sender = ''alice'',
                          cp_repo = ''research'', cp_org = ''ubiquity''\<rparr>) world0)"]
    by (auto simp: pluginDispatch_unfold Let_def dispatchEventType_help_plugin example_event_def runs
        world0_def split: option.splits sum.splits prod.splits)
  with extraction show ?thesis by simp
qed

text \<open>
  Claim C7, as the code has it.  When the job list of the run is empty, the extraction
  throws a \<^verbatim>\<open>TypeError\<close> right after the job listing, without fetching any job, and
  the poller, whenever its loop ends, passes that exception on to the orchestrator.
\<close>

theorem zero_jobs_throw:
  assumes "run_jobs R ownr repo runID = []"
  shows "fetchRunLogs R runID ownr repo w = (Inl TypeError, emit (ListJobs ownr repo runID) w)
         \<and> pollInProgressRunTillCompletion R runID ownr repo w
             = map_option (\<lambda>w'. (Inl TypeError, emit (ListJobs ownr repo runID) w'))
                 (poll_loop R runID ownr repo w)"
  using assms
  by (simp add: fetchRunLogs_def pollInProgressRunTillCompletion_def split: option.splits)

theorem zero_jobs_throw_witness:
  "run_jobs remote_without_jobs ''ubiquity'' ''research'' 107 = []
   \<and> fetchRunLogs remote_without_jobs 107 ''ubiquity'' ''research'' world0
       = (Inl TypeError, \<lparr>trace = [ListJobs ''ubiquity'' ''research'' 107], status_reads = 0\<rparr>)"
proof -
  have jobs: "run_jobs remote_without_jobs ''ubiquity'' ''research'' 107 = []"
    by (simp add: remote_without_jobs_def)
  from zero_jobs_throw [OF jobs, of world0] jobs show ?thesis
    by (simp add: emit_def world0_def)
qed

subsection \<open>The worker\<close>

text \<open>
  Claim C10.  When the author of the comment is of type \<^verbatim>\<open>Bot\<close>, the handler of the
  worker returns with no effect at all, in particular without a call that creates a
  comment; for every other author type it issues exactly one such call, for the issue
  of the event.
\<close>

theorem worker_comments_unless_bot:
  "(user_type (user (comment (payload event))) = ''Bot''
      \<longrightarrow> handleIssueCommentCreated event w = w)
   \<and> (user_type (user (comment (payload event))) \<noteq> ''Bot''
      \<longrightarrow> handleIssueCommentCreated event w
            = w\<lparr>trace := trace w @
                  [CreateComment (login (owner (repository (payload event))))
                     (repository_name (repository (payload event)))
                     (number (issue (payload event)))
                     ''Hello from the worker!'']\<rparr>)"
  by (simp add: handleIssueCommentCreated_def emit_def)

theorem worker_comments_unless_bot_witness:
  "user_type (user (comment (payload bot_event))) = ''Bot''
   \<and> handleIssueCommentCreated bot_event world0 = world0
   \<and> user_type (user (comment (payload example_event))) \<noteq> ''Bot''
   \<and> handleIssueCommentCreated example_event world0
       = \<lparr>trace = [CreateComment ''ubiquity'' ''research'' 25 ''Hello from the worker!''],
          status_reads = 0\<rparr>"
  using worker_comments_unless_bot [of bot_event world0]
        worker_comments_unless_bot [of example_event world0]
  by (simp add: bot_event_def example_event_def world0_def)

subsection \<open>The event type of a dispatch\<close>











subsection \<open>The resolver\<close>

lemma exec_help_me:
  "RegExp_exec other (command_pattern (map command userCommands)) ''/help me'' = Inr (Some ''/help'')"
  by (simp add: RegExp_exec_def command_pattern_def userCommands_def help_plugin_def
      literal_alternatives_def syntax_character_def first_alternative_def word_boundary_def
      is_word_char_def)

lemma exec_helpme:
  "RegExp_exec other (command_pattern (map command userCommands)) ''/helpme'' = Inr None"
  by (simp add: RegExp_exec_def command_pattern_def userCommands_def help_plugin_def
      literal_alternatives_def syntax_character_def first_alternative_def word_boundary_def
      is_word_char_def)

lemma exec_no_commands:
  "RegExp_exec other (command_pattern (map command [])) ''hello'' = Inr (Some [])"
  by (simp add: RegExp_exec_def command_pattern_def
      literal_alternatives_def syntax_character_def first_alternative_def word_boundary_def
      is_word_char_def)

lemma split_on_not_Nil: "split_on sep s \<noteq> []"
  by (induction s) (auto split: list.splits)

lemma split_on_no_sep: "sep \<notin> set s \<Longrightarrow> split_on sep s = [s]"
  by (induction s) auto

lemma split_on_append_sep:
  "sep \<notin> set s \<Longrightarrow> split_on sep (s @ sep # rest) = s # split_on sep rest"
  by (induction s) (auto split: list.splits simp: split_on_not_Nil)

lemma split_on_join:
  "cmds \<noteq> [] \<Longrightarrow> \<forall>s \<in> set cmds. sep \<notin> set s \<Longrightarrow> split_on sep (join [sep] cmds) = cmds"
  by (induction "[sep]" cmds rule: join.induct) (simp_all add: split_on_no_sep split_on_append_sep)

lemma literal_no_bar: "literal s \<Longrightarrow> CHR ''|'' \<notin> set s"
  by (auto simp: literal_def list_all_iff syntax_character_def)

lemma join_literal_chars:
  "\<forall>s \<in> set cmds. literal s \<Longrightarrow>
   list_all (\<lambda>c. c = CHR ''|'' \<or> \<not> syntax_character c) (join ''|'' cmds)"
  by (induction "''|''" cmds rule: join.induct) (auto simp: literal_def list_all_iff)

lemma literal_alternatives_command_pattern:
  assumes "\<forall>s \<in> set cmds. literal s"
  shows "literal_alternatives (command_pattern cmds) = Some (if cmds = [] then [[]] else cmds)"
proof -
  let ?inner = "join ''|'' cmds"
  have pat: "command_pattern cmds
               = CHR ''^'' # CHR ''('' # (?inner @ [CHR '')'', CHR 0x5C, CHR ''b''])"
    by (simp add: command_pattern_def)
  have chars: "list_all (\<lambda>c. c = CHR ''|'' \<or> \<not> syntax_character c) ?inner"
    using assms by (rule join_literal_chars)
  have split: "split_on CHR ''|'' ?inner = (if cmds = [] then [[]] else cmds)"
    using assms by (auto simp: split_on_join literal_no_bar)
  show ?thesis
    unfolding pat literal_alternatives_def
    by (simp add: chars split)
qed

lemma find_over_commands:
  "find B (map command plugins) = map_option command (find (\<lambda>p. B (command p)) plugins)"
  by (induction plugins) simp_all

lemma find_result_in_set: "find B xs = Some x \<Longrightarrow> x \<in> set xs"
  by (induction xs) (auto split: if_splits)

lemma find_result_holds: "find B xs = Some x \<Longrightarrow> B x"
  by (induction xs) (auto split: if_splits)

lemma find_same_command:
  "find (\<lambda>p. B (command p)) plugins = Some h \<Longrightarrow>
   find (\<lambda>p. command p = command h) plugins = Some h"
proof (induction plugins)
  case Nil
  then show ?case by simp
next
  case (Cons a plugins)
  show ?case
  proof (cases "B (command a)")
    case True
    with Cons.prems show ?thesis by simp
  next
    case False
    with Cons.prems have rest: "find (\<lambda>p. B (command p)) plugins = Some h" by simp
    then have "B (command h)" by (rule find_result_holds)
    with False have "command a \<noteq> command h" by auto
    with Cons.IH [OF rest] show ?thesis by simp
  qed
qed

lemma commentParser_literal:
  assumes lit: "list_all (\<lambda>p. literal (command p)) plugins"
  shows "commentParser (RegExp_exec other) input plugins
           = Inr (map_option command (first_bounded_command input plugins))"
proof (cases "plugins = []")
  case True
  then show ?thesis
    using exec_no_commands
    by (simp add: commentParser_def first_bounded_command_def RegExp_exec_def
        literal_alternatives_command_pattern split: option.splits)
next
  case False
  let ?cmds = "map command plugins"
  let ?B = "\<lambda>a. prefix a input \<and> word_boundary input (length a)"
  from lit have "\<forall>s \<in> set ?cmds. literal s"
    by (auto simp: list_all_iff)
  then have alts: "literal_alternatives (command_pattern ?cmds) = Some ?cmds"
    using False by (simp add: literal_alternatives_command_pattern)
  have exec: "RegExp_exec other (command_pattern ?cmds) input = Inr (find ?B ?cmds)"
    by (simp add: RegExp_exec_def alts first_alternative_def)
  have mem: "m \<in> set ?cmds" if "find ?B ?cmds = Some m" for m
    using that by (rule find_result_in_set)
  have "commentParser (RegExp_exec other) input plugins = Inr (find ?B ?cmds)"
    using mem by (auto simp: commentParser_def Let_def exec split: option.splits)
  then show ?thesis
    by (simp add: find_over_commands first_bounded_command_def)
qed

lemma issueCommentCreated_literal:
  assumes lit: "list_all (\<lambda>p. literal (command p)) plugins"
  shows "issueCommentCreated (RegExp_exec other) R (Some plugins) event w
           = (case first_bounded_command (body (comment (payload event))) plugins of
                None \<Rightarrow> Some (Inr None, w)
              | Some h \<Rightarrow>
                  if command h = [] then Some (Inr None, w)
                  else (case pluginDispatch R h event w of
                          None \<Rightarrow> None
                        | Some (Inl err, w') \<Rightarrow> Some (Inl err, w')
                        | Some (Inr _, w') \<Rightarrow> Some (Inr None, w')))"
proof (cases "first_bounded_command (body (comment (payload event))) plugins")
  case None
  then show ?thesis
    by (simp add: issueCommentCreated_def commentParser_literal [OF lit])
next
  case (Some h)
  then have "find (\<lambda>p. command p = command h) plugins = Some h"
    unfolding first_bounded_command_def by (rule find_same_command)
  with Some show ?thesis
    by (simp add: issueCommentCreated_def commentParser_literal [OF lit])
qed

text \<open>
  Claim C5 says that the resolver returns the first command whose match string matches
  at the start of the text.  The pattern ends with \<^verbatim>\<open>\b\<close>: for the text \<^verbatim>\<open>/helpme\<close> the
  match string \<^verbatim>\<open>/help\<close> of the one configured command is a prefix of the text, no
  word boundary follows it, and the resolver returns nothing.
\<close>

theorem resolver_first_prefix_counterexample:
  "first_prefix_command ''/helpme'' userCommands = Some help_plugin
   \<and> commentParser (RegExp_exec no_other_engine) ''/helpme'' userCommands = Inr None"
  using exec_helpme [of no_other_engine]
  by (simp add: first_prefix_command_def commentParser_def userCommands_def help_plugin_def)

text \<open>
  Claim C5, as the code has it.  For every text and every list of commands whose match
  strings hold no syntax character of the pattern language, the resolver returns the
  match string of the first command, in the order of the configuration, whose match
  string is a prefix of the text and is followed in the text by a word boundary, and
  the handler found for that string is that first command; it returns nothing when no
  command matches so, in particular for the empty list; and for the one command
  \<^verbatim>\<open>/help\<close> and the text \<^verbatim>\<open>hello\<close> it returns nothing.
\<close>

theorem resolver_first_bounded_literal_command:
  assumes lit: "list_all (\<lambda>p. literal (command p)) plugins"
  shows "commentParser (RegExp_exec other) input plugins
           = Inr (map_option command (first_bounded_command input plugins))
         \<and> (\<forall>c. commentParser (RegExp_exec other) input plugins = Inr (Some c)
               \<longrightarrow> find (\<lambda>p. command p = c) plugins = first_bounded_command input plugins)
         \<and> commentParser (RegExp_exec other) input [] = Inr None
         \<and> commentParser (RegExp_exec other) ''hello'' [help_plugin] = Inr None"
proof -
  have parse: "commentParser (RegExp_exec other) input plugins
                 = Inr (map_option command (first_bounded_command input plugins))"
    using lit by (rule commentParser_literal)
  have handler: "find (\<lambda>p. command p = c) plugins = first_bounded_command input plugins"
    if "commentParser (RegExp_exec other) input plugins = Inr (Some c)" for c
  proof -
    from that parse obtain h where h: "first_bounded_command input plugins = Some h" "command h = c"
      by auto
    from h(1) have "find (\<lambda>p. command p = command h) plugins = Some h"
      unfolding first_bounded_command_def by (rule find_same_command)
    with h show ?thesis by simp
  qed
  have empty: "commentParser (RegExp_exec other) input [] = Inr None"
    using commentParser_literal [of "[]" other input] by (simp add: first_bounded_command_def)
  have "list_all (\<lambda>p. literal (command p)) [help_plugin]"
    by (simp add: help_plugin_def literal_def syntax_character_def)
  then have "commentParser (RegExp_exec other) ''hello'' [help_plugin]
               = Inr (map_option command (first_bounded_command ''hello'' [help_plugin]))"
    by (rule commentParser_literal)
  then have hello: "commentParser (RegExp_exec other) ''hello'' [help_plugin] = Inr None"
    by (simp add: first_bounded_command_def help_plugin_def)
  from parse handler empty hello show ?thesis by simp
qed

theorem resolver_first_bounded_literal_command_witness:
  "list_all (\<lambda>p. literal (command p)) userCommands
   \<and> commentParser (RegExp_exec no_other_engine) ''/help me'' userCommands = Inr (Some ''/help'')
   \<and> find (\<lambda>p. command p = ''/help'') userCommands = Some help_plugin"
proof -
  have lit: "list_all (\<lambda>p. literal (command p)) userCommands"
    by (simp add: userCommands_def help_plugin_def literal_def syntax_character_def)
  have first: "first_bounded_command ''/help me'' userCommands = Some help_plugin"
    by (simp add: first_bounded_command_def userCommands_def help_plugin_def word_boundary_def
        is_word_char_def)
  note t = resolver_first_bounded_literal_command [OF lit, of no_other_engine "''/help me''"]
  from t [THEN conjunct1]
  have parse: "commentParser (RegExp_exec no_other_engine) ''/help me'' userCommands
                      = Inr (Some ''/help'')"
    by (simp add: first help_plugin_def)
  have "find (\<lambda>p. command p = ''/help'') userCommands = Some help_plugin"
    by (simp add: userCommands_def help_plugin_def)
  with lit parse show ?thesis by (intro conjI)
qed

text \<open>
  Claim C9.  Whatever the regular expression engine does: a result of the resolver
  that is not \<^verbatim>\<open>null\<close> is the match string of a command of the list, and when the
  text matched by the pattern is not the match string of any command, the resolver
  returns \<^verbatim>\<open>null\<close>.
\<close>

theorem parser_returns_configured_command:
  "(commentParser exec input plugins = Inr (Some c) \<longrightarrow> c \<in> set (map command plugins))
   \<and> (exec (command_pattern (map command plugins)) input = Inr (Some m)
        \<and> m \<notin> set (map command plugins)
        \<longrightarrow> commentParser exec input plugins = Inr None)"
  by (auto simp: commentParser_def Let_def split: sum.splits option.splits if_splits)

theorem parser_returns_configured_command_witness:
  "commentParser (RegExp_exec no_other_engine) ''/help me'' userCommands = Inr (Some ''/help'')
   \<and> ''/help'' \<in> set (map command userCommands)
   \<and> RegExp_exec no_other_engine (command_pattern (map command [])) ''hello'' = Inr (Some [])
   \<and> [] \<notin> set (map command [])
   \<and> commentParser (RegExp_exec no_other_engine) ''hello'' [] = Inr None"
proof -
  have parse: "commentParser (RegExp_exec no_other_engine) ''/help me'' userCommands = Inr (Some ''/help'')"
    using exec_help_me [of no_other_engine]
    by (simp add: commentParser_def userCommands_def help_plugin_def)
  note t1 = parser_returns_configured_command
              [of "RegExp_exec no_other_engine" "''/help me''" userCommands "''/help''"]
  from t1 [THEN conjunct1]
  have mem: "''/help'' \<in> set (map command userCommands)"
    using parse by (rule mp)
  have ex: "RegExp_exec no_other_engine (command_pattern (map command [])) ''hello'' = Inr (Some [])"
    by (rule exec_no_commands)
  have notin: "[] \<notin> set (map command [])"
    by simp
  note t2 = parser_returns_configured_command
              [of "RegExp_exec no_other_engine" "''hello''" "[]" _ "[]"]
  from t2 [THEN conjunct2]
  have none: "commentParser (RegExp_exec no_other_engine) ''hello'' [] = Inr None"
    using ex notin by simp
  from parse mem ex notin none show ?thesis by (intro conjI)
qed

end
